theory Spec2Isabelle
  imports Main "HOL-Library.Sublist"
begin

section \<open>Pricebook search: the loader, the row filter and the summarization step of app.py\<close>

text \<open>
  The program is a Streamlit script around three functions: \<^verbatim>\<open>load_and_combine_data\<close>,
  \<^verbatim>\<open>search_dataframe\<close> and \<^verbatim>\<open>get_gemini_answer\<close>. They are embedded below as HOL
  functions. What they call in pandas, \<^verbatim>\<open>re\<close>, Streamlit and the Gemini client is
  modelled as follows.
  \<^item> A DataFrame is a record of its column labels and its rows, every row holding one
    cell per column.
  \<^item> A cell is the missing marker NaN, a Python \<^verbatim>\<open>str\<close>, or a scalar of another type
    (\<^verbatim>\<open>read_csv\<close> infers int64, float64 and bool columns). Scalars of other types are
    kept abstract (type \<open>'v\<close>). What pandas does to them depends on the dtypes of the
    frame at hand, and is a parameter in both places where the program meets it:
    \<open>upcast\<close> is the conversion of a scalar to the common dtype \<^verbatim>\<open>pd.concat\<close> gives its
    column (an int64 column that receives NaN becomes float64), and \<open>py_str\<close> is the
    text \<^verbatim>\<open>row.astype(str)\<close> gives a scalar in the rows of a given frame (the rows of a
    frame whose columns are all numeric and hold a float are float64, and an integer
    prints there as a float).
  \<^item> Text is \<open>string\<close>, a \<open>char\<close> being a code point below 256; \<open>lower\<close> and \<open>strip\<close>
    are \<^verbatim>\<open>str.lower\<close> and \<^verbatim>\<open>str.strip\<close> on these code points. Text with code points from
    256 on is outside the model.
  \<^item> \<^verbatim>\<open>pd.read_csv\<close> is a parameter: for every path it either yields a frame, raises
    \<^verbatim>\<open>FileNotFoundError\<close>, or raises another exception (whose text is kept).
  \<^item> \<^verbatim>\<open>st.warning\<close> and \<^verbatim>\<open>st.error\<close> append a message to the list of messages shown,
    which every function returns beside its value.
  \<^item> \<^verbatim>\<open>Series.str.contains(pat)\<close> is called with its defaults, \<^verbatim>\<open>regex=True\<close>: the
    pattern is compiled by \<^verbatim>\<open>re\<close> and searched for in every cell. The patterns made of
    ordinary characters and of \<^verbatim>\<open>.\<close> are modelled here; on every other pattern the
    regular-expression library is a parameter (\<open>re_lib\<close>), which yields a matcher or
    the \<^verbatim>\<open>re.error\<close> raised when the pattern does not compile.
  \<^item> \<^verbatim>\<open>DataFrame.to_markdown\<close> and the Gemini client are parameters.
  \<^item> The decorator \<^verbatim>\<open>st.cache_data\<close> memoises the loader; it does not change what the
    loader computes and is left out.
\<close>

subsection \<open>Data model\<close>

datatype 'v cell = NaN | Str string | Val 'v

record 'v dataframe =
  columns :: "string list"
  rows :: "'v cell list list"

text \<open>\<^verbatim>\<open>pd.DataFrame()\<close>: no columns, no rows.\<close>

definition empty_df :: "'v dataframe" where
  "empty_df = \<lparr>columns = [], rows = []\<rparr>"

text \<open>\<^verbatim>\<open>len(df)\<close>, \<^verbatim>\<open>df.empty\<close> (some axis has length 0) and \<^verbatim>\<open>df.head(n)\<close>.\<close>

definition len :: "'v dataframe \<Rightarrow> nat" where
  "len df = length (rows df)"

definition df_is_empty :: "'v dataframe \<Rightarrow> bool" where
  "df_is_empty df = (columns df = [] \<or> rows df = [])"

definition head :: "nat \<Rightarrow> 'v dataframe \<Rightarrow> 'v dataframe" where
  "head n df = df\<lparr>rows := take n (rows df)\<rparr>"

text \<open>Every row has one cell per column, and no label occurs twice.\<close>

definition wf_df :: "'v dataframe \<Rightarrow> bool" where
  "wf_df df = (distinct (columns df) \<and> list_all (\<lambda>row. length row = length (columns df)) (rows df))"

datatype ui_msg = Warning string | Error string

subsection \<open>Text\<close>

text \<open>
  \<^verbatim>\<open>str.lower\<close> on the code points below 256: the capital letters are A to Z
  (65 to 90) and 192 to 222 without the multiplication sign 215; each has its small
  letter 32 places further.
\<close>

definition lower_char :: "char \<Rightarrow> char" where
  "lower_char c =
     (let n = (of_char c :: nat)
      in if (65 \<le> n \<and> n \<le> 90) \<or> (192 \<le> n \<and> n \<le> 214) \<or> (216 \<le> n \<and> n \<le> 222)
         then char_of (n + 32) else c)"

definition lower :: "string \<Rightarrow> string" where
  "lower s = map lower_char s"

text \<open>
  The code points below 256 that \<^verbatim>\<open>str.strip\<close> removes: tab, LF, VT, FF, CR, FS, GS, RS,
  US, space, NEL (133) and the no-break space (160).
\<close>

definition is_space :: "char \<Rightarrow> bool" where
  "is_space c = (c \<in> set [CHR 0x09, CHR 0x0A, CHR 0x0B, CHR 0x0C, CHR 0x0D,
                            CHR 0x1C, CHR 0x1D, CHR 0x1E, CHR 0x1F, CHR 0x20,
                            CHR 0x85, CHR 0xA0])"

definition strip :: "string \<Rightarrow> string" where
  "strip s = rev (dropWhile is_space (rev (dropWhile is_space s)))"

text \<open>\<open>starts_with p s\<close> is \<^verbatim>\<open>s.startswith(p)\<close>; \<open>is_substring q s\<close> is \<^verbatim>\<open>q in s\<close>.\<close>

fun starts_with :: "string \<Rightarrow> string \<Rightarrow> bool" where
  "starts_with [] s = True"
| "starts_with (p # ps) [] = False"
| "starts_with (p # ps) (c # cs) = (p = c \<and> starts_with ps cs)"

fun is_substring :: "string \<Rightarrow> string \<Rightarrow> bool" where
  "is_substring q [] = (q = [])"
| "is_substring q (c # cs) = (starts_with q (c # cs) \<or> is_substring q cs)"

text \<open>\<^verbatim>\<open>str(n)\<close> for an integer \<open>n\<close>, and the number a string of decimal digits denotes.\<close>

fun digits :: "nat \<Rightarrow> string" where
  "digits n = (if n < 10 then [char_of (48 + n)] else digits (n div 10) @ [char_of (48 + n mod 10)])"

declare digits.simps [simp del]

definition str_int :: "int \<Rightarrow> string" where
  "str_int i = (if i < 0 then CHR ''-'' # digits (nat (- i)) else digits (nat i))"

definition digits_value :: "string \<Rightarrow> nat" where
  "digits_value s = foldl (\<lambda>acc c. 10 * acc + (of_char c - 48)) 0 s"

subsection \<open>Regular expressions, as far as \<^verbatim>\<open>str.contains\<close> needs them\<close>

text \<open>The characters with a special meaning in a pattern of \<^verbatim>\<open>re\<close>.\<close>

definition re_special :: "char list" where
  "re_special = [CHR ''.'', CHR ''^'', CHR ''$'', CHR ''*'', CHR ''+'', CHR ''?'', CHR ''{'', CHR ''}'',
                 CHR ''['', CHR '']'', CHR 0x5C, CHR ''|'', CHR ''('', CHR '')'']"

text \<open>
  In a pattern, \<^verbatim>\<open>.\<close> matches every character but the newline and an ordinary character
  matches itself. \<open>match_here pat s\<close>: the pattern matches at the start of \<open>s\<close>;
  \<open>re_search pat s\<close>: it matches somewhere in \<open>s\<close> (\<^verbatim>\<open>re.search(pat, s) is not None\<close>).
\<close>

definition atom_matches :: "char \<Rightarrow> char \<Rightarrow> bool" where
  "atom_matches p c = (if p = CHR ''.'' then c \<noteq> CHR 0x0A else p = c)"

fun match_here :: "string \<Rightarrow> string \<Rightarrow> bool" where
  "match_here [] s = True"
| "match_here (p # ps) [] = False"
| "match_here (p # ps) (c # cs) = (atom_matches p c \<and> match_here ps cs)"

fun re_search :: "string \<Rightarrow> string \<Rightarrow> bool" where
  "re_search pat [] = match_here pat []"
| "re_search pat (c # cs) = (match_here pat (c # cs) \<or> re_search pat cs)"

definition plain_or_dot :: "string \<Rightarrow> bool" where
  "plain_or_dot pat = list_all (\<lambda>c. c = CHR ''.'' \<or> c \<notin> set re_special) pat"

datatype re_error = ReError string

type_synonym re_lib = "string \<Rightarrow> re_error + (string \<Rightarrow> bool)"

definition re_compile :: "re_lib \<Rightarrow> string \<Rightarrow> re_error + (string \<Rightarrow> bool)" where
  "re_compile lib pat = (if plain_or_dot pat then Inr (re_search pat) else lib pat)"

subsection \<open>load_and_combine_data\<close>

datatype 'v read_outcome = Parsed "'v dataframe" | FileNotFoundError | OtherException string

text \<open>The messages of \<^verbatim>\<open>st.warning\<close> and \<^verbatim>\<open>st.error\<close> in the loop.\<close>

definition not_found_msg :: "string \<Rightarrow> ui_msg" where
  "not_found_msg file_path =
     Warning (''File not found: '' @ file_path @ ''. Please ensure all CSV files are in the same directory.'')"

definition load_error_msg :: "string \<Rightarrow> string \<Rightarrow> ui_msg" where
  "load_error_msg file_path e = Error (''Error loading '' @ file_path @ '': '' @ e)"

text \<open>
  The loop over \<^verbatim>\<open>file_paths\<close>: the state is \<^verbatim>\<open>all_data\<close> and the messages shown so
  far. A frame that was read is appended; a missing file gives a warning, any other
  exception an error, and the loop continues.
\<close>

fun load_files ::
  "(string \<Rightarrow> 'v read_outcome) \<Rightarrow> string list \<Rightarrow> 'v dataframe list \<times> ui_msg list
     \<Rightarrow> 'v dataframe list \<times> ui_msg list" where
  "load_files read_csv [] st = st"
| "load_files read_csv (file_path # rest) (all_data, shown) =
     (case read_csv file_path of
        Parsed df \<Rightarrow> load_files read_csv rest (all_data @ [df], shown)
      | FileNotFoundError \<Rightarrow> load_files read_csv rest (all_data, shown @ [not_found_msg file_path])
      | OtherException e \<Rightarrow> load_files read_csv rest (all_data, shown @ [load_error_msg file_path e]))"

text \<open>
  \<^verbatim>\<open>pd.concat(all_data, ignore_index=True)\<close>: the columns are the union of the frames'
  columns in the order of their first appearance; every row is re-indexed to them, a
  column its frame does not have giving NaN; every column is brought to one dtype; the
  rows follow each other in the order of the frames.

  \<open>upcast dfs c v\<close> is the scalar \<open>v\<close> of column \<open>c\<close> as the concatenation of \<open>dfs\<close>
  holds it: \<open>v\<close> itself where the dtype of the column is that of \<open>v\<close>, the float of an
  integer where an int64 column has become float64. Strings and NaN are never converted.
\<close>

type_synonym 'v upcast = "'v dataframe list \<Rightarrow> string \<Rightarrow> 'v \<Rightarrow> 'v"

definition union_columns :: "'v dataframe list \<Rightarrow> string list" where
  "union_columns dfs = rev (remdups (rev (concat (map columns dfs))))"

definition reindex :: "string list \<Rightarrow> 'v dataframe \<Rightarrow> 'v cell list \<Rightarrow> 'v cell list" where
  "reindex cols df row =
     map (\<lambda>c. case map_of (zip (columns df) row) c of None \<Rightarrow> NaN | Some v \<Rightarrow> v) cols"

definition upcast_cell :: "'v upcast \<Rightarrow> 'v dataframe list \<Rightarrow> string \<Rightarrow> 'v cell \<Rightarrow> 'v cell" where
  "upcast_cell upcast dfs c x = (case x of Val v \<Rightarrow> Val (upcast dfs c v) | _ \<Rightarrow> x)"

definition upcast_row :: "'v upcast \<Rightarrow> 'v dataframe list \<Rightarrow> string list \<Rightarrow> 'v cell list \<Rightarrow> 'v cell list" where
  "upcast_row upcast dfs cols row = map2 (upcast_cell upcast dfs) cols row"

definition pd_concat :: "'v upcast \<Rightarrow> 'v dataframe list \<Rightarrow> 'v dataframe" where
  "pd_concat upcast dfs =
     (let cols = union_columns dfs
      in \<lparr>columns = cols,
          rows = concat (map (\<lambda>df. map (\<lambda>row. upcast_row upcast dfs cols (reindex cols df row)) (rows df)) dfs)\<rparr>)"

text \<open>\<^verbatim>\<open>df.fillna('')\<close>: every NaN becomes the empty string, every other cell is kept.\<close>

definition fill_cell :: "'v cell \<Rightarrow> 'v cell" where
  "fill_cell c = (case c of NaN \<Rightarrow> Str [] | _ \<Rightarrow> c)"

definition fillna :: "'v dataframe \<Rightarrow> 'v dataframe" where
  "fillna df = df\<lparr>rows := map (map fill_cell) (rows df)\<rparr>"

definition no_data_msg :: string where
  "no_data_msg = ''No data loaded. Please check your CSV file paths and names.''"

definition load_and_combine_data ::
  "'v upcast \<Rightarrow> (string \<Rightarrow> 'v read_outcome) \<Rightarrow> string list \<Rightarrow> 'v dataframe \<times> ui_msg list" where
  "load_and_combine_data upcast read_csv file_paths =
     (case load_files read_csv file_paths ([], []) of
        (all_data, shown) \<Rightarrow>
          if all_data = [] then (empty_df, shown @ [Error no_data_msg])
          else (fillna (pd_concat upcast all_data), shown))"

subsection \<open>search_dataframe\<close>

text \<open>
  \<^verbatim>\<open>row.astype(str)\<close>: the row is a Series of the common dtype of the frame's columns,
  and is converted as such. NaN prints as \<^verbatim>\<open>nan\<close>, a string is itself, and \<open>py_str df v\<close>
  is the text of the scalar \<open>v\<close> in a row of the frame \<open>df\<close>.
\<close>

type_synonym 'v py_str = "'v dataframe \<Rightarrow> 'v \<Rightarrow> string"

definition astype_str :: "'v py_str \<Rightarrow> 'v dataframe \<Rightarrow> 'v cell \<Rightarrow> string" where
  "astype_str py_str df c = (case c of NaN \<Rightarrow> ''nan'' | Str s \<Rightarrow> s | Val v \<Rightarrow> py_str df v)"

text \<open>\<^verbatim>\<open>row.astype(str).str.lower()\<close>.\<close>

definition row_lower :: "'v py_str \<Rightarrow> 'v dataframe \<Rightarrow> 'v cell list \<Rightarrow> string list" where
  "row_lower py_str df row = map (\<lambda>c. lower (astype_str py_str df c)) row"

text \<open>
  The query is tested stripped, and used unstripped. On a frame that has rows,
  \<^verbatim>\<open>DataFrame.apply\<close> calls the function on every row; the pattern is compiled when the
  function runs, so a pattern that does not compile raises then. On a frame without rows
  it calls the function once, on an empty row, and drops what that call raises: when the
  pattern compiles the selection is the empty frame, when it does not compile the frame
  itself comes back.
\<close>

definition search_dataframe ::
  "re_lib \<Rightarrow> 'v py_str \<Rightarrow> 'v dataframe \<Rightarrow> string \<Rightarrow> re_error + 'v dataframe" where
  "search_dataframe lib py_str df query =
     (if strip query = [] then Inr empty_df
      else
        let query_lower = lower query
        in if rows df = []
           then (case re_compile lib query_lower of
                   Inl e \<Rightarrow> Inr df
                 | Inr found \<Rightarrow> Inr empty_df)
           else (case re_compile lib query_lower of
                   Inl e \<Rightarrow> Inl e
                 | Inr found \<Rightarrow>
                     Inr (df\<lparr>rows := filter (\<lambda>row. list_ex found (row_lower py_str df row)) (rows df)\<rparr>)))"

subsection \<open>get_gemini_answer\<close>

definition max_rows_for_gemini :: nat where
  "max_rows_for_gemini = 10"

definition more_results_note :: "int \<Rightarrow> string" where
  "more_results_note k = [CHR 0x0A] @ ''... (and '' @ str_int k @ '' more results not shown due to length)''"

definition results_str :: "('v dataframe \<Rightarrow> string) \<Rightarrow> 'v dataframe \<Rightarrow> string" where
  "results_str to_markdown df =
     (if len df > max_rows_for_gemini
      then to_markdown (head max_rows_for_gemini df)
             @ more_results_note (int (len df) - int max_rows_for_gemini)
      else to_markdown df)"

definition no_match_prompt :: "string \<Rightarrow> string" where
  "no_match_prompt query =
     ''The user searched for '' @ [CHR 0x27] @ query @ [CHR 0x27] @
     '' but no relevant data was found in the pricebook. Please provide a helpful response indicating that no matching items were found.''"

definition prompt_intro :: "string \<Rightarrow> string" where
  "prompt_intro query =
     ''The user searched for '' @ [CHR 0x27] @ query @ [CHR 0x27] @ '' in a pricebook spreadsheet. ''
     @ ''Here are the relevant search results:'' @ [CHR 0x0A, CHR 0x0A]"

definition prompt_request :: string where
  "prompt_request =
     [CHR 0x0A, CHR 0x0A]
     @ ''Based on these results, please provide a concise and helpful answer to the user'' @ [CHR 0x27] @ ''s query. ''
     @ ''If the results contain pricing information, mention it clearly. ''
     @ ''If the results are unclear or incomplete for the query, state that you are providing information based on the available data. ''
     @ ''Focus on extracting key information like product names, descriptions, and prices if available.''"

text \<open>The prompt handed to the model: lines 94 to 113.\<close>

definition build_prompt :: "('v dataframe \<Rightarrow> string) \<Rightarrow> string \<Rightarrow> 'v dataframe \<Rightarrow> string" where
  "build_prompt to_markdown query search_results_df =
     (if df_is_empty search_results_df then no_match_prompt query
      else prompt_intro query @ results_str to_markdown search_results_df @ prompt_request)"

definition fallback_answer :: string where
  "fallback_answer = ''Sorry, I couldn'' @ [CHR 0x27] @ ''t get an answer from Gemini at this moment.''"

text \<open>
  The Gemini client: creating the model, generating from a prompt and reading the text
  of the response. Each of the three may raise; \<open>Inl\<close> holds the text of the exception.
\<close>

record ('m, 'r) gemini_client =
  GenerativeModel :: "string \<Rightarrow> string + 'm"
  generate_content :: "'m \<Rightarrow> string \<Rightarrow> string + 'r"
  response_text :: "'r \<Rightarrow> string + string"

text \<open>The body of the \<^verbatim>\<open>try\<close> block: the first exception ends it.\<close>

definition try_gemini :: "('m, 'r) gemini_client \<Rightarrow> string \<Rightarrow> string + string" where
  "try_gemini genai prompt =
     (case GenerativeModel genai ''gemini-pro'' of
        Inl e \<Rightarrow> Inl e
      | Inr model \<Rightarrow>
          (case generate_content genai model prompt of
             Inl e \<Rightarrow> Inl e
           | Inr response \<Rightarrow> response_text genai response))"

definition get_gemini_answer ::
  "('m, 'r) gemini_client \<Rightarrow> ('v dataframe \<Rightarrow> string) \<Rightarrow> string \<Rightarrow> 'v dataframe
     \<Rightarrow> string \<times> ui_msg list" where
  "get_gemini_answer genai to_markdown query search_results_df =
     (case try_gemini genai (build_prompt to_markdown query search_results_df) of
        Inr text \<Rightarrow> (text, [])
      | Inl e \<Rightarrow> (fallback_answer, [Error (''Error communicating with Gemini API: '' @ e)]))"

subsection \<open>Notions used to state the properties\<close>

text \<open>
  The condition the specification gives for a row to match: some cell, converted to its
  string form and lowercased, contains the lowercased query as a substring.
\<close>

definition row_contains :: "'v py_str \<Rightarrow> 'v dataframe \<Rightarrow> string \<Rightarrow> 'v cell list \<Rightarrow> bool" where
  "row_contains py_str df q row = list_ex (is_substring (lower q)) (row_lower py_str df row)"

fun is_parsed :: "'v read_outcome \<Rightarrow> bool" where
  "is_parsed (Parsed df) = True"
| "is_parsed FileNotFoundError = False"
| "is_parsed (OtherException e) = False"

fun is_warning :: "ui_msg \<Rightarrow> bool" where
  "is_warning (Warning m) = True"
| "is_warning (Error m) = False"

fun is_str :: "'v cell \<Rightarrow> bool" where
  "is_str (Str s) = True"
| "is_str NaN = False"
| "is_str (Val v) = False"

text \<open>The frames that are read from a list of paths, in the order of the list.\<close>

fun frame_of :: "'v read_outcome \<Rightarrow> 'v dataframe list" where
  "frame_of (Parsed df) = [df]"
| "frame_of FileNotFoundError = []"
| "frame_of (OtherException e) = []"

definition frames_read :: "(string \<Rightarrow> 'v read_outcome) \<Rightarrow> string list \<Rightarrow> 'v dataframe list" where
  "frames_read read_csv file_paths = concat (map (\<lambda>p. frame_of (read_csv p)) file_paths)"

subsection \<open>Sample data for the examples\<close>

text \<open>
  A directory as a table from paths to what \<^verbatim>\<open>read_csv\<close> does there; a path that is not
  in the table does not exist.
\<close>

definition read_from :: "(string \<times> 'v read_outcome) list \<Rightarrow> string \<Rightarrow> 'v read_outcome" where
  "read_from files path = (case map_of files path of None \<Rightarrow> FileNotFoundError | Some r \<Rightarrow> r)"

text \<open>
  The table of the specification's scenario; all its cells are strings. \<open>decimal\<close> is
  \<open>py_str\<close> for the frames whose rows are of dtype object or int64, where an integer
  prints in decimal. The frames searched in the examples hold strings only, so that the
  text of another scalar is never asked for.
\<close>

definition sample_table :: "int dataframe" where
  "sample_table = \<lparr>columns = [''name'', ''price''],
      rows = [[Str ''Endpoint Security'', Str ''100''], [Str ''Network Security'', Str ''250'']]\<rparr>"

definition decimal :: "int py_str" where
  "decimal df v = str_int v"

text \<open>
  Two sheets and a file that does not parse. The sheets hold integer prices, which
  \<^verbatim>\<open>read_csv\<close> reads as int64. Both have the column of the prices, so the prices stay
  int64 in their concatenation, and so do they in the concatenation of one sheet alone:
  \<open>as_read\<close>, which converts nothing, is \<open>upcast\<close> for these frames.
\<close>

definition sample_files :: "(string \<times> int read_outcome) list" where
  "sample_files =
     [(''endpoint.csv'', Parsed \<lparr>columns = [''name'', ''price''],
          rows = [[Str ''Endpoint Security'', Val 100], [Str ''Network Security'', Val 250]]\<rparr>),
      (''skyhigh.csv'', Parsed \<lparr>columns = [''sku'', ''name'', ''price''],
          rows = [[Str ''SKY-1'', Str ''Skyhigh SSE'', Val 300], [Str ''SKY-2'', NaN, Val 450]]\<rparr>),
      (''broken.csv'', OtherException ''No columns to parse from file'')]"

definition as_read :: "int upcast" where
  "as_read dfs c v = v"

definition fifteen_rows :: "int dataframe" where
  "fifteen_rows = \<lparr>columns = [''name'', ''price''], rows = map (\<lambda>i. [Str ''Item'', Val i]) [1..15]\<rparr>"

text \<open>A client whose model is created and whose generation times out.\<close>

definition timing_out :: "(unit, string) gemini_client" where
  "timing_out = \<lparr>GenerativeModel = (\<lambda>name. Inr ()),
                  generate_content = (\<lambda>model prompt. Inl ''504 Deadline Exceeded''),
                  response_text = Inr\<rparr>"

text \<open>A client that answers with the prompt it was given.\<close>

definition echo :: "(unit, string) gemini_client" where
  "echo = \<lparr>GenerativeModel = (\<lambda>name. Inr ()),
            generate_content = (\<lambda>model prompt. Inr prompt),
            response_text = Inr\<rparr>"

text \<open>A stand-in for \<^verbatim>\<open>to_markdown\<close>: one line per row, the cells between bars.\<close>

fun render_cell :: "int cell \<Rightarrow> string" where
  "render_cell NaN = ''''"
| "render_cell (Str s) = s"
| "render_cell (Val v) = str_int v"

definition render_rows :: "int dataframe \<Rightarrow> string" where
  "render_rows df =
     concat (map (\<lambda>row. concat (map (\<lambda>c. ''|'' @ render_cell c) row) @ ''|'' @ [CHR 0x0A]) (rows df))"

section \<open>Properties\<close>

subsection \<open>Text and patterns\<close>

lemma starts_with_iff: "starts_with p s \<longleftrightarrow> (\<exists>ss. s = p @ ss)"
  by (induction p s rule: starts_with.induct) auto

text \<open>\<open>is_substring\<close> is substring containment.\<close>

lemma is_substring_iff: "is_substring q s \<longleftrightarrow> (\<exists>ps ss. s = ps @ q @ ss)"
proof (induction s)
  case Nil
  then show ?case by simp
next
  case (Cons c cs)
  show ?case
  proof
    assume "is_substring q (c # cs)"
    then consider "starts_with q (c # cs)" | "is_substring q cs" by auto
    then show "\<exists>ps ss. c # cs = ps @ q @ ss"
    proof cases
      case 1
      then obtain ss where "c # cs = q @ ss" by (auto simp: starts_with_iff)
      then have "c # cs = [] @ q @ ss" by simp
      then show ?thesis by blast
    next
      case 2
      then obtain ps ss where "cs = ps @ q @ ss" using Cons.IH by blast
      then have "c # cs = (c # ps) @ q @ ss" by simp
      then show ?thesis by blast
    qed
  next
    assume "\<exists>ps ss. c # cs = ps @ q @ ss"
    then obtain ps ss where eq: "c # cs = ps @ q @ ss" by blast
    show "is_substring q (c # cs)"
    proof (cases ps)
      case Nil
      then have "starts_with q (c # cs)" using eq by (auto simp: starts_with_iff)
      then show ?thesis by simp
    next
      case (Cons p ps')
      then have "cs = ps' @ q @ ss" using eq by simp
      then have "is_substring q cs" using Cons.IH by blast
      then show ?thesis by simp
    qed
  qed
qed

text \<open>A pattern without \<^verbatim>\<open>.\<close> among the modelled ones is searched for literally.\<close>

lemma match_here_plain:
  "CHR ''.'' \<notin> set pat \<Longrightarrow> match_here pat s = starts_with pat s"
  by (induction pat s rule: match_here.induct) (auto simp: atom_matches_def)

lemma re_search_plain:
  "CHR ''.'' \<notin> set pat \<Longrightarrow> re_search pat s = is_substring pat s"
proof (induction s)
  case Nil
  then show ?case by (cases pat) simp_all
next
  case (Cons c cs)
  then show ?case by (simp add: match_here_plain)
qed

text \<open>Lowercasing turns no ordinary character into a special one.\<close>

lemma lower_char_cases:
  "lower_char c = c \<or>
   (lower_char c = char_of (of_char c + 32 :: nat) \<and>
    ((65 \<le> (of_char c :: nat) \<and> (of_char c :: nat) \<le> 90) \<or>
     (192 \<le> (of_char c :: nat) \<and> (of_char c :: nat) \<le> 214) \<or>
     (216 \<le> (of_char c :: nat) \<and> (of_char c :: nat) \<le> 222)))"
  by (auto simp: lower_char_def Let_def)

lemma lower_char_not_special:
  assumes "c \<notin> set re_special"
  shows "lower_char c \<notin> set re_special"
proof -
  define n where "n = (of_char c :: nat)"
  consider "lower_char c = c"
    | "lower_char c = char_of (n + 32)"
      "(65 \<le> n \<and> n \<le> 90) \<or> (192 \<le> n \<and> n \<le> 214) \<or> (216 \<le> n \<and> n \<le> 222)"
    using lower_char_cases [of c] unfolding n_def by blast
  then show ?thesis
  proof cases
    case 1
    then show ?thesis using assms by simp
  next
    case 2
    have small: "n \<le> 222" using 2(2) by arith
    have code: "(of_char (lower_char c) :: nat) = n + 32" using small by (simp add: 2(1))
    have "(of_char d :: nat) \<noteq> n + 32" if "d \<in> set re_special" for d
      using that 2(2) by (auto simp: re_special_def)
    then show ?thesis using code by blast
  qed
qed

lemma lower_not_special:
  "list_all (\<lambda>c. c \<notin> set re_special) q \<Longrightarrow> list_all (\<lambda>c. c \<notin> set re_special) (lower q)"
  by (induction q) (auto simp: lower_def lower_char_not_special)

lemma dropWhile_all: "list_all P xs \<Longrightarrow> dropWhile P xs = []"
  by (induction xs) simp_all

lemma dropWhile_Nil_all: "dropWhile P xs = [] \<Longrightarrow> list_all P xs"
  by (induction xs) (simp_all split: if_splits)

text \<open>The stripped query is empty exactly when the query is made of whitespace only.\<close>

lemma strip_eq_Nil_iff: "strip s = [] \<longleftrightarrow> list_all is_space s"
proof
  assume "strip s = []"
  then have "dropWhile is_space (rev (dropWhile is_space s)) = []" by (simp add: strip_def)
  then have "list_all is_space (rev (dropWhile is_space s))" by (rule dropWhile_Nil_all)
  then have all: "list_all is_space (dropWhile is_space s)" by (simp add: list_all_iff)
  have "dropWhile is_space s = []"
  proof (cases "dropWhile is_space s")
    case Nil
    then show ?thesis .
  next
    case (Cons x xs)
    then have "\<not> is_space x" using hd_dropWhile [of is_space s] by simp
    moreover have "is_space x" using all Cons by simp
    ultimately show ?thesis by simp
  qed
  then show "list_all is_space s" by (rule dropWhile_Nil_all)
next
  assume "list_all is_space s"
  then have "dropWhile is_space s = []" by (rule dropWhile_all)
  then show "strip s = []" by (simp add: strip_def del: dropWhile_eq_Nil_conv)
qed

text \<open>The decimal text of a number denotes that number.\<close>

lemma digits_value_append:
  "digits_value (s @ [c]) = 10 * digits_value s + (of_char c - 48)"
  by (simp add: digits_value_def)

lemma digits_small: "n < 10 \<Longrightarrow> digits n = [char_of (48 + n)]"
  by (subst digits.simps) simp

lemma digits_large: "\<not> n < 10 \<Longrightarrow> digits n = digits (n div 10) @ [char_of (48 + n mod 10)]"
  by (subst digits.simps) simp

lemma digits_value_digits: "digits_value (digits n) = n"
proof (induction n rule: digits.induct)
  case (1 n)
  show ?case
  proof (cases "n < 10")
    case True
    then show ?thesis by (simp add: digits_small digits_value_def)
  next
    case False
    have "(of_char (char_of (48 + n mod 10)) :: nat) = 48 + n mod 10"
      by simp
    then show ?thesis
      using "1.IH" False by (simp add: digits_large digits_value_append)
  qed
qed

lemma str_int_nonneg: "0 \<le> k \<Longrightarrow> str_int k = digits (nat k)"
  by (simp add: str_int_def)

subsection \<open>The row filter\<close>

lemma plain_query_compiles:
  assumes "list_all (\<lambda>c. c \<notin> set re_special) query"
  shows "re_compile lib (lower query) = Inr (is_substring (lower query))"
proof -
  have plain: "list_all (\<lambda>c. c \<notin> set re_special) (lower query)"
    using assms by (rule lower_not_special)
  then have frag: "plain_or_dot (lower query)"
    by (simp add: plain_or_dot_def list_all_iff)
  have "CHR ''.'' \<in> set re_special" by (simp add: re_special_def)
  then have nodot: "CHR ''.'' \<notin> set (lower query)"
    using plain by (auto simp: list_all_iff)
  have "re_search (lower query) = is_substring (lower query)"
    using re_search_plain [OF nodot] by (rule ext)
  then show ?thesis using frag by (simp add: re_compile_def)
qed

lemma search_returns_plain:
  assumes "list_all (\<lambda>c. c \<notin> set re_special) query"
  shows "\<exists>res. search_dataframe lib py_str df query = Inr res"
  by (simp add: search_dataframe_def Let_def plain_query_compiles [OF assms])

lemma search_rows_filter:
  assumes "search_dataframe lib py_str df query = Inr res"
  shows "\<exists>P. rows res = filter P (rows df)"
proof (cases "strip query = [] \<or> rows df = []")
  case True
  then have "res = empty_df \<or> (res = df \<and> rows df = [])"
    using assms by (auto simp: search_dataframe_def Let_def split: if_splits sum.splits)
  then have "rows res = filter (\<lambda>r. False) (rows df)" by (auto simp: empty_df_def)
  then show ?thesis by blast
next
  case False
  then obtain found where "re_compile lib (lower query) = Inr found"
    and "res = df\<lparr>rows := filter (\<lambda>row. list_ex found (row_lower py_str df row)) (rows df)\<rparr>"
    using assms by (auto simp: search_dataframe_def Let_def split: sum.splits)
  then show ?thesis by auto
qed

text \<open>A query that does not compile makes the search raise, on a table that has rows.\<close>

lemma search_raises:
  assumes "strip query \<noteq> []" and "rows df \<noteq> []" and "re_compile lib (lower query) = Inl e"
  shows "search_dataframe lib py_str df query = Inl e"
  using assms by (simp add: search_dataframe_def Let_def)

text \<open>
  The scenario of the specification, and the whitespace of the query: \<^verbatim>\<open>security\<close> finds
  both rows, \<^verbatim>\<open>security\<close> followed by a space finds none. In the examples the library
  parameter is \<open>Inl \<circ> ReError\<close>, which rejects every pattern; their queries are among
  the modelled patterns, for which it is not consulted.
\<close>

lemma search_sample_table:
  "search_dataframe (Inl \<circ> ReError) decimal sample_table ''security'' = Inr sample_table \<and>
   search_dataframe (Inl \<circ> ReError) decimal sample_table ''100'' =
     Inr (sample_table\<lparr>rows := [[Str ''Endpoint Security'', Str ''100'']]\<rparr>) \<and>
   search_dataframe (Inl \<circ> ReError) decimal sample_table ''zzz'' = Inr (sample_table\<lparr>rows := []\<rparr>) \<and>
   search_dataframe (Inl \<circ> ReError) decimal sample_table ''security '' = Inr (sample_table\<lparr>rows := []\<rparr>) \<and>
   search_dataframe (Inl \<circ> ReError) decimal sample_table '' security'' = Inr sample_table"
  by code_simp

text \<open>
  C3. For every table, a query that is the empty string or consists of whitespace only
  gives the empty result: the search returns (it does not raise) and what it returns is
  the empty frame, which has no rows.
\<close>

theorem search_blank_query:
  "list_all is_space query \<Longrightarrow> search_dataframe lib py_str df query = Inr empty_df"
  by (simp add: search_dataframe_def strip_eq_Nil_iff)

theorem search_blank_query_witness:
  "list_all is_space ''   '' \<and> list_all is_space '''' \<and>
   list_all is_space [CHR 0x09, CHR 0xA0, CHR 0x85, CHR 0x0A] \<and>
   search_dataframe (Inl \<circ> ReError) decimal sample_table ''   '' = Inr empty_df \<and>
   search_dataframe (Inl \<circ> ReError) decimal sample_table '''' = Inr empty_df \<and>
   search_dataframe (Inl \<circ> ReError) decimal sample_table [CHR 0x09, CHR 0xA0, CHR 0x85, CHR 0x0A] = Inr empty_df \<and>
   rows (empty_df :: int dataframe) = []"
proof -
  have h1: "list_all is_space ''   ''" by (simp add: is_space_def)
  have h2: "list_all is_space ''''" by simp
  have h3: "list_all is_space [CHR 0x09, CHR 0xA0, CHR 0x85, CHR 0x0A]" by (simp add: is_space_def)
  show ?thesis
    using h1 h2 h3 search_blank_query [OF h1, of "Inl \<circ> ReError" decimal sample_table]
      search_blank_query [OF h2, of "Inl \<circ> ReError" decimal sample_table]
      search_blank_query [OF h3, of "Inl \<circ> ReError" decimal sample_table]
    by (simp add: empty_df_def)
qed

text \<open>
  C5. For every table and query, the rows the search returns are a subsequence of the
  table's rows: each of them is a row of the table, and they stand in the table's order.
  The search returns on every query free of the special characters of regular
  expressions.
\<close>

theorem search_order_preserving:
  "(list_all (\<lambda>c. c \<notin> set re_special) query \<longrightarrow>
      (\<exists>res. search_dataframe lib py_str df query = Inr res)) \<and>
   (\<forall>res. search_dataframe lib py_str df query = Inr res \<longrightarrow>
      subseq (rows res) (rows df) \<and> set (rows res) \<subseteq> set (rows df))"
proof (intro conjI impI allI)
  assume "list_all (\<lambda>c. c \<notin> set re_special) query"
  then show "\<exists>res. search_dataframe lib py_str df query = Inr res" by (rule search_returns_plain)
next
  fix res assume "search_dataframe lib py_str df query = Inr res"
  then obtain P where P: "rows res = filter P (rows df)" using search_rows_filter by blast
  show "subseq (rows res) (rows df)" unfolding P by simp
  show "set (rows res) \<subseteq> set (rows df)" unfolding P by auto
qed

theorem search_order_preserving_witness:
  "list_all (\<lambda>c. c \<notin> set re_special) ''100'' \<and>
   search_dataframe (Inl \<circ> ReError) decimal sample_table ''100'' =
     Inr \<lparr>columns = [''name'', ''price''], rows = [[Str ''Endpoint Security'', Str ''100'']]\<rparr> \<and>
   subseq [[Str ''Endpoint Security'', Str ''100'']] (rows sample_table)"
proof -
  have h: "list_all (\<lambda>c. c \<notin> set re_special) ''100''" by (simp add: re_special_def)
  have run: "search_dataframe (Inl \<circ> ReError) decimal sample_table ''100'' =
     Inr \<lparr>columns = [''name'', ''price''], rows = [[Str ''Endpoint Security'', Str ''100'']]\<rparr>"
    by code_simp
  show ?thesis
    using h run search_order_preserving [of "''100''" "Inl \<circ> ReError" decimal sample_table]
    by simp
qed

text \<open>
  C1, as the code has it. For every table and every query that is not blank and holds
  no special character of regular expressions, the search returns, and a row is in the
  result exactly when it is a row of the table and one of its cells, converted to its
  string form (the text \<^verbatim>\<open>row.astype(str)\<close> gives it in this table) and lowercased,
  contains the lowercased query as a substring. For a blank query the result is the
  empty frame, whatever the rows contain: every cell contains the empty string, and no
  row is returned for the empty query.
\<close>

theorem search_literal_iff:
  "(strip query = [] \<longrightarrow> search_dataframe lib py_str df query = Inr empty_df) \<and>
   (strip query \<noteq> [] \<and> list_all (\<lambda>c. c \<notin> set re_special) query \<longrightarrow>
      (\<exists>res. search_dataframe lib py_str df query = Inr res \<and>
         (\<forall>r. r \<in> set (rows res) \<longleftrightarrow> r \<in> set (rows df) \<and> row_contains py_str df query r)))"
proof (intro conjI impI)
  assume "strip query = []"
  then show "search_dataframe lib py_str df query = Inr empty_df"
    by (simp add: search_dataframe_def)
next
  assume h: "strip query \<noteq> [] \<and> list_all (\<lambda>c. c \<notin> set re_special) query"
  then have compiled: "re_compile lib (lower query) = Inr (is_substring (lower query))"
    by (simp add: plain_query_compiles)
  show "\<exists>res. search_dataframe lib py_str df query = Inr res \<and>
         (\<forall>r. r \<in> set (rows res) \<longleftrightarrow> r \<in> set (rows df) \<and> row_contains py_str df query r)"
  proof (cases "rows df = []")
    case True
    then have "search_dataframe lib py_str df query = Inr empty_df"
      using h compiled by (simp add: search_dataframe_def Let_def)
    then show ?thesis using True by (simp add: empty_df_def)
  next
    case False
    then have "search_dataframe lib py_str df query =
        Inr (df\<lparr>rows := filter (\<lambda>row. list_ex (is_substring (lower query)) (row_lower py_str df row)) (rows df)\<rparr>)"
      using h compiled by (simp add: search_dataframe_def Let_def)
    then show ?thesis by (auto simp: row_contains_def)
  qed
qed

theorem search_literal_iff_witness:
  "strip ''Security'' \<noteq> [] \<and> list_all (\<lambda>c. c \<notin> set re_special) ''Security'' \<and>
   (\<exists>res. search_dataframe (Inl \<circ> ReError) decimal sample_table ''Security'' = Inr res \<and>
      (\<forall>r. r \<in> set (rows res) \<longleftrightarrow>
           r \<in> set (rows sample_table) \<and> row_contains decimal sample_table ''Security'' r)) \<and>
   strip ''  '' = [] \<and>
   search_dataframe (Inl \<circ> ReError) decimal sample_table ''  '' = Inr empty_df"
proof -
  have h1: "strip ''Security'' \<noteq> []" by (simp add: strip_def is_space_def)
  have h2: "list_all (\<lambda>c. c \<notin> set re_special) ''Security''" by (simp add: re_special_def)
  have h3: "strip ''  '' = []" by (simp add: strip_def is_space_def)
  show ?thesis
    using h1 h2 h3 search_literal_iff [of "''Security''" "Inl \<circ> ReError" decimal sample_table]
      search_literal_iff [of "''  ''" "Inl \<circ> ReError" decimal sample_table]
    by blast
qed

theorem search_empty_query_counterexample:
  "[Str ''Endpoint Security'', Str ''100''] \<in> set (rows sample_table) \<and>
   row_contains decimal sample_table '''' [Str ''Endpoint Security'', Str ''100''] \<and>
   search_dataframe (Inl \<circ> ReError) decimal sample_table '''' = Inr \<lparr>columns = [], rows = []\<rparr>"
  by (simp add: sample_table_def row_contains_def row_lower_def lower_def astype_str_def
      search_dataframe_def strip_def empty_df_def)

text \<open>
  C10. The query is matched untrimmed and lowercased, but as a regular expression, not
  as a literal string: on the query \<^verbatim>\<open>1.5\<close> the search returns a row whose cells are
  \<^verbatim>\<open>HX\<close> and \<^verbatim>\<open>125\<close>, and neither contains \<^verbatim>\<open>1.5\<close>.
\<close>

theorem search_dot_query:
  "search_dataframe (Inl \<circ> ReError) decimal
     \<lparr>columns = [''sku'', ''price''], rows = [[Str ''HX'', Str ''125'']]\<rparr> ''1.5''
     = Inr \<lparr>columns = [''sku'', ''price''], rows = [[Str ''HX'', Str ''125'']]\<rparr> \<and>
   \<not> row_contains decimal \<lparr>columns = [''sku'', ''price''], rows = [[Str ''HX'', Str ''125'']]\<rparr>
        ''1.5'' [Str ''HX'', Str ''125'']"
  by code_simp

subsection \<open>The loader\<close>

text \<open>The loop only appends to its state.\<close>

lemma load_files_acc:
  "load_files rd ps (acc, shown) =
     (acc @ fst (load_files rd ps ([], [])), shown @ snd (load_files rd ps ([], [])))"
proof (induction ps arbitrary: acc shown)
  case Nil
  then show ?case by simp
next
  case (Cons p ps)
  show ?case
  proof (cases "rd p")
    case (Parsed df)
    then show ?thesis
      using Cons.IH [of "acc @ [df]" shown] Cons.IH [of "[df]" "[]"] by simp
  next
    case FileNotFoundError
    then show ?thesis
      using Cons.IH [of acc "shown @ [not_found_msg p]"] Cons.IH [of "[]" "[not_found_msg p]"]
      by simp
  next
    case (OtherException e)
    then show ?thesis
      using Cons.IH [of acc "shown @ [load_error_msg p e]"] Cons.IH [of "[]" "[load_error_msg p e]"]
      by simp
  qed
qed

lemma load_files_append:
  "load_files rd (xs @ ys) st = load_files rd ys (load_files rd xs st)"
proof (induction xs arbitrary: st)
  case Nil
  then show ?case by simp
next
  case (Cons x xs)
  obtain acc shown where st: "st = (acc, shown)" by (cases st)
  show ?case unfolding st by (cases "rd x") (simp_all add: Cons.IH)
qed

text \<open>What the loop collects are the frames that are read, in the order of the paths.\<close>

lemma load_files_frames_read:
  "fst (load_files rd ps (acc, shown)) = acc @ frames_read rd ps"
proof (induction ps arbitrary: acc shown)
  case Nil
  then show ?case by (simp add: frames_read_def)
next
  case (Cons p ps)
  show ?case
  proof (cases "rd p")
    case (Parsed df)
    then show ?thesis using Cons.IH [of "acc @ [df]" shown] by (simp add: frames_read_def)
  next
    case FileNotFoundError
    then show ?thesis using Cons.IH [of acc "shown @ [not_found_msg p]"] by (simp add: frames_read_def)
  next
    case (OtherException e)
    then show ?thesis using Cons.IH [of acc "shown @ [load_error_msg p e]"] by (simp add: frames_read_def)
  qed
qed

lemma load_files_all_parsed:
  "map rd ps = map Parsed dfs \<Longrightarrow> load_files rd ps (acc, shown) = (acc @ dfs, shown)"
proof (induction ps arbitrary: dfs acc)
  case Nil
  then show ?case by simp
next
  case (Cons p ps)
  then obtain d ds where dfs: "dfs = d # ds" and p: "rd p = Parsed d" and rest: "map rd ps = map Parsed ds"
    by (cases dfs) auto
  show ?case using Cons.IH [OF rest, of "acc @ [d]"] p dfs by simp
qed

lemma load_files_none_parsed:
  "list_all (\<lambda>p. \<not> is_parsed (rd p)) ps \<Longrightarrow> fst (load_files rd ps (acc, shown)) = acc"
proof (induction ps arbitrary: shown)
  case Nil
  then show ?case by simp
next
  case (Cons p ps)
  then show ?case by (cases "rd p") simp_all
qed

lemma load_files_some_parsed:
  "\<not> list_all (\<lambda>p. \<not> is_parsed (rd p)) ps \<Longrightarrow> fst (load_files rd ps (acc, shown)) \<noteq> []"
proof (induction ps arbitrary: acc shown)
  case Nil
  then show ?case by simp
next
  case (Cons p ps)
  show ?case
  proof (cases "rd p")
    case (Parsed df)
    have "fst (load_files rd ps (acc @ [df], shown)) = (acc @ [df]) @ fst (load_files rd ps ([], []))"
      by (subst load_files_acc) simp
    then show ?thesis using Parsed by simp
  next
    case FileNotFoundError
    then show ?thesis using Cons by simp
  next
    case (OtherException e)
    then show ?thesis using Cons by simp
  qed
qed

text \<open>No message of the loop is the report that nothing was loaded.\<close>

lemma load_files_no_data_msg:
  "Error no_data_msg \<notin> set shown \<Longrightarrow> Error no_data_msg \<notin> set (snd (load_files rd ps (acc, shown)))"
proof (induction ps arbitrary: acc shown)
  case Nil
  then show ?case by simp
next
  case (Cons p ps)
  show ?case
  proof (cases "rd p")
    case (Parsed df)
    then show ?thesis using Cons by simp
  next
    case FileNotFoundError
    have "not_found_msg p \<noteq> Error no_data_msg" by (simp add: not_found_msg_def)
    then show ?thesis using FileNotFoundError Cons by simp
  next
    case (OtherException e)
    have "load_error_msg p e \<noteq> Error no_data_msg"
      by (simp add: no_data_msg_def load_error_msg_def)
    then show ?thesis using OtherException Cons by simp
  qed
qed

lemma load_files_warnings:
  "list_all (\<lambda>p. rd p \<noteq> FileNotFoundError) ps \<Longrightarrow>
   filter is_warning (snd (load_files rd ps (acc, shown))) = filter is_warning shown"
proof (induction ps arbitrary: acc shown)
  case Nil
  then show ?case by simp
next
  case (Cons p ps)
  then show ?case by (cases "rd p") (simp_all add: load_error_msg_def)
qed

lemma load_eq:
  "load_and_combine_data upcast rd ps =
     (let all_data = fst (load_files rd ps ([], [])); shown = snd (load_files rd ps ([], []))
      in if all_data = [] then (empty_df, shown @ [Error no_data_msg])
         else (fillna (pd_concat upcast all_data), shown))"
  by (simp add: load_and_combine_data_def Let_def split: prod.splits)

lemma load_files_skip:
  assumes "rd p = FileNotFoundError"
  shows "fst (load_files rd (xs @ p # ys) ([], [])) = fst (load_files rd (xs @ ys) ([], []))"
    and "snd (load_files rd (xs @ p # ys) ([], [])) =
           snd (load_files rd xs ([], [])) @ [not_found_msg p] @ snd (load_files rd ys ([], []))"
    and "snd (load_files rd (xs @ ys) ([], [])) =
           snd (load_files rd xs ([], [])) @ snd (load_files rd ys ([], []))"
proof -
  obtain a1 s1 where xs: "load_files rd xs ([], []) = (a1, s1)" by (cases "load_files rd xs ([], [])")
  have with_p: "load_files rd (xs @ p # ys) ([], []) = load_files rd ys (a1, s1 @ [not_found_msg p])"
    using assms by (simp add: load_files_append xs)
  have without: "load_files rd (xs @ ys) ([], []) = load_files rd ys (a1, s1)"
    by (simp add: load_files_append xs)
  show "fst (load_files rd (xs @ p # ys) ([], [])) = fst (load_files rd (xs @ ys) ([], []))"
    unfolding with_p without
    by (subst load_files_acc, subst (2) load_files_acc) simp
  show "snd (load_files rd (xs @ p # ys) ([], [])) =
           snd (load_files rd xs ([], [])) @ [not_found_msg p] @ snd (load_files rd ys ([], []))"
    unfolding with_p xs by (subst load_files_acc) simp
  show "snd (load_files rd (xs @ ys) ([], [])) =
           snd (load_files rd xs ([], [])) @ snd (load_files rd ys ([], []))"
    unfolding without xs by (subst load_files_acc) simp
qed

text \<open>
  In a well-formed frame, the cell a row has in a column of the frame is found by
  looking the column up in the row.
\<close>

lemma source_cell:
  assumes "wf_df df" and "row \<in> set (rows df)" and "i < length (columns df)"
  shows "map_of (zip (columns df) row) (columns df ! i) = Some (row ! i)"
proof -
  have "length row = length (columns df)"
    using assms(1,2) by (auto simp: wf_df_def list_all_iff)
  moreover have "distinct (columns df)" using assms(1) by (simp add: wf_df_def)
  ultimately show ?thesis using assms(3) by (simp add: map_of_zip_nth)
qed

text \<open>
  What the concatenation followed by \<^verbatim>\<open>fillna\<close> makes of a row, column by column: the
  empty string where the frame of the row has no such column or the cell is NaN, the
  string itself for a string, the scalar in the dtype of the column for another scalar.
\<close>

lemma map2_map_same: "map2 f xs (map g xs) = map (\<lambda>x. f x (g x)) xs"
  by (induction xs) simp_all

lemma loaded_row:
  "map fill_cell (upcast_row upcast dfs cols (reindex cols df row)) =
     map (\<lambda>c. case map_of (zip (columns df) row) c of
                 None \<Rightarrow> Str []
               | Some NaN \<Rightarrow> Str []
               | Some (Str s) \<Rightarrow> Str s
               | Some (Val v) \<Rightarrow> Val (upcast dfs c v)) cols"
  unfolding upcast_row_def reindex_def map2_map_same
  by (auto simp: fill_cell_def upcast_cell_def split: option.splits cell.splits)

lemma loaded_rows:
  "rows (fst (load_and_combine_data upcast rd ps)) =
     concat (map (\<lambda>df. map (\<lambda>row. map fill_cell
                (upcast_row upcast (frames_read rd ps) (union_columns (frames_read rd ps))
                   (reindex (union_columns (frames_read rd ps)) df row))) (rows df))
       (frames_read rd ps))"
proof -
  have fr: "fst (load_files rd ps ([], [])) = frames_read rd ps"
    using load_files_frames_read [of rd ps "[]" "[]"] by simp
  show ?thesis
  proof (cases "frames_read rd ps = []")
    case True
    then show ?thesis by (simp add: load_eq fr empty_df_def)
  next
    case False
    then show ?thesis
      by (simp add: load_eq fr fillna_def pd_concat_def Let_def map_concat comp_def)
  qed
qed

lemma fill_cell_not_NaN: "fill_cell c \<noteq> NaN"
  by (cases c) (simp_all add: fill_cell_def)

lemma length_concat_rows:
  "length (concat (map (\<lambda>df. map (f df) (rows df)) dfs)) = sum_list (map len dfs)"
  by (induction dfs) (simp_all add: len_def)

text \<open>
  C6. When every source of the list is read, the table has as many rows as the sources
  together, and its rows are the rows of the sources, in the order of the list and, for
  each source, in the order of the source: each re-indexed to the union of the columns
  and brought to the dtypes of the concatenation, its missing cells filled.
\<close>

theorem load_all_sources:
  assumes "map read_csv file_paths = map Parsed dfs"
  shows "len (fst (load_and_combine_data upcast read_csv file_paths)) = sum_list (map len dfs) \<and>
         rows (fst (load_and_combine_data upcast read_csv file_paths)) =
           concat (map (\<lambda>df. map (\<lambda>row. map fill_cell
                      (upcast_row upcast dfs (union_columns dfs) (reindex (union_columns dfs) df row)))
                    (rows df)) dfs)"
proof -
  have "load_files read_csv file_paths ([], []) = (dfs, [])"
    using load_files_all_parsed [OF assms, of "[]" "[]"] by simp
  then have "frames_read read_csv file_paths = dfs"
    using load_files_frames_read [of read_csv file_paths "[]" "[]"] by simp
  then have rows_eq: "rows (fst (load_and_combine_data upcast read_csv file_paths)) =
           concat (map (\<lambda>df. map (\<lambda>row. map fill_cell
                      (upcast_row upcast dfs (union_columns dfs) (reindex (union_columns dfs) df row)))
                    (rows df)) dfs)"
    using loaded_rows [of upcast read_csv file_paths] by simp
  have "length (concat (map (\<lambda>df. map (\<lambda>row. map fill_cell
                      (upcast_row upcast dfs (union_columns dfs) (reindex (union_columns dfs) df row)))
                    (rows df)) dfs))
      = sum_list (map len dfs)"
    by (rule length_concat_rows)
  then show ?thesis using rows_eq by (simp add: len_def)
qed

lemma sample_load:
  "rows (fst (load_and_combine_data as_read (read_from sample_files) [''endpoint.csv'', ''skyhigh.csv''])) =
     [[Str ''Endpoint Security'', Val 100, Str ''''],
      [Str ''Network Security'', Val 250, Str ''''],
      [Str ''Skyhigh SSE'', Val 300, Str ''SKY-1''],
      [Str '''', Val 450, Str ''SKY-2'']]"
  by code_simp

theorem load_all_sources_witness:
  "map (read_from sample_files) [''endpoint.csv'', ''skyhigh.csv''] =
     map Parsed [\<lparr>columns = [''name'', ''price''],
                    rows = [[Str ''Endpoint Security'', Val 100], [Str ''Network Security'', Val 250]]\<rparr>,
                 \<lparr>columns = [''sku'', ''name'', ''price''],
                    rows = [[Str ''SKY-1'', Str ''Skyhigh SSE'', Val 300], [Str ''SKY-2'', NaN, Val 450]]\<rparr>] \<and>
   len (fst (load_and_combine_data as_read (read_from sample_files) [''endpoint.csv'', ''skyhigh.csv''])) = 4 \<and>
   rows (fst (load_and_combine_data as_read (read_from sample_files) [''endpoint.csv'', ''skyhigh.csv''])) =
     [[Str ''Endpoint Security'', Val 100, Str ''''],
      [Str ''Network Security'', Val 250, Str ''''],
      [Str ''Skyhigh SSE'', Val 300, Str ''SKY-1''],
      [Str '''', Val 450, Str ''SKY-2'']]"
proof -
  have h: "map (read_from sample_files) [''endpoint.csv'', ''skyhigh.csv''] =
     map Parsed [\<lparr>columns = [''name'', ''price''],
                    rows = [[Str ''Endpoint Security'', Val 100], [Str ''Network Security'', Val 250]]\<rparr>,
                 \<lparr>columns = [''sku'', ''name'', ''price''],
                    rows = [[Str ''SKY-1'', Str ''Skyhigh SSE'', Val 300], [Str ''SKY-2'', NaN, Val 450]]\<rparr>]"
    by (simp add: read_from_def sample_files_def)
  show ?thesis
    using h sample_load load_all_sources [OF h, of as_read]
    by (simp add: len_def)
qed

text \<open>
  C7. A source of the list that cannot be found is skipped: the table is the table of
  the list without it, and the messages are those of the list without it with one
  warning, naming the source, put in at its place. When every other source is found,
  that warning is the only one.
\<close>

theorem load_skips_missing_source:
  assumes "read_csv p = FileNotFoundError"
  shows "fst (load_and_combine_data upcast read_csv (xs @ p # ys)) =
           fst (load_and_combine_data upcast read_csv (xs @ ys)) \<and>
         (\<exists>s1 s2. snd (load_and_combine_data upcast read_csv (xs @ ys)) = s1 @ s2 \<and>
                  snd (load_and_combine_data upcast read_csv (xs @ p # ys)) = s1 @ [not_found_msg p] @ s2) \<and>
         (list_all (\<lambda>q. read_csv q \<noteq> FileNotFoundError) (xs @ ys) \<longrightarrow>
            filter is_warning (snd (load_and_combine_data upcast read_csv (xs @ p # ys))) = [not_found_msg p])"
proof (intro conjI impI)
  note skip = load_files_skip [of read_csv p xs ys, OF assms]
  show "fst (load_and_combine_data upcast read_csv (xs @ p # ys)) =
          fst (load_and_combine_data upcast read_csv (xs @ ys))"
    by (simp add: load_eq Let_def skip(1))
  let ?s1 = "snd (load_files read_csv xs ([], []))"
  let ?s2 = "snd (load_files read_csv ys ([], []))"
  let ?tail = "if fst (load_files read_csv (xs @ ys) ([], [])) = [] then [Error no_data_msg] else []"
  have without: "snd (load_and_combine_data upcast read_csv (xs @ ys)) = ?s1 @ (?s2 @ ?tail)"
    by (simp add: load_eq Let_def skip(3))
  have with_p: "snd (load_and_combine_data upcast read_csv (xs @ p # ys)) =
      ?s1 @ [not_found_msg p] @ (?s2 @ ?tail)"
    by (simp add: load_eq Let_def skip(1) skip(2))
  show "\<exists>s1 s2. snd (load_and_combine_data upcast read_csv (xs @ ys)) = s1 @ s2 \<and>
                  snd (load_and_combine_data upcast read_csv (xs @ p # ys)) = s1 @ [not_found_msg p] @ s2"
    using without with_p by blast
  assume others: "list_all (\<lambda>q. read_csv q \<noteq> FileNotFoundError) (xs @ ys)"
  have w1: "filter is_warning ?s1 = []"
    using others load_files_warnings [of read_csv xs "[]" "[]"] by simp
  have w2: "filter is_warning ?s2 = []"
    using others load_files_warnings [of read_csv ys "[]" "[]"] by simp
  show "filter is_warning (snd (load_and_combine_data upcast read_csv (xs @ p # ys))) = [not_found_msg p]"
    unfolding with_p by (simp add: w1 w2 not_found_msg_def del: append_assoc)
qed

theorem load_skips_missing_source_witness:
  "read_from sample_files ''missing.csv'' = FileNotFoundError \<and>
   list_all (\<lambda>q. read_from sample_files q \<noteq> FileNotFoundError) ([''endpoint.csv''] @ [''skyhigh.csv'']) \<and>
   fst (load_and_combine_data as_read (read_from sample_files)
          ([''endpoint.csv''] @ ''missing.csv'' # [''skyhigh.csv''])) =
     fst (load_and_combine_data as_read (read_from sample_files) ([''endpoint.csv''] @ [''skyhigh.csv''])) \<and>
   filter is_warning
     (snd (load_and_combine_data as_read (read_from sample_files)
             ([''endpoint.csv''] @ ''missing.csv'' # [''skyhigh.csv'']))) =
     [not_found_msg ''missing.csv'']"
proof -
  have h: "read_from sample_files ''missing.csv'' = FileNotFoundError"
    by (simp add: read_from_def sample_files_def)
  have o: "list_all (\<lambda>q. read_from sample_files q \<noteq> FileNotFoundError) ([''endpoint.csv''] @ [''skyhigh.csv''])"
    by (simp add: read_from_def sample_files_def)
  show ?thesis
    using h o load_skips_missing_source [of "read_from sample_files" "''missing.csv''" as_read
        "[''endpoint.csv'']" "[''skyhigh.csv'']", OF h]
    by blast
qed

text \<open>
  C8. When no source of the list is read (the empty list included), the loader returns
  the empty frame and its last message is the error that no data was loaded. That error
  is among the messages exactly when no source was read, so it tells apart a load of
  nothing from a table in which a query finds nothing.
\<close>

theorem load_nothing_reported:
  "(list_all (\<lambda>p. \<not> is_parsed (read_csv p)) file_paths \<longrightarrow>
      fst (load_and_combine_data upcast read_csv file_paths) = empty_df \<and>
      (\<exists>shown. snd (load_and_combine_data upcast read_csv file_paths) = shown @ [Error no_data_msg])) \<and>
   (Error no_data_msg \<in> set (snd (load_and_combine_data upcast read_csv file_paths))
      \<longleftrightarrow> list_all (\<lambda>p. \<not> is_parsed (read_csv p)) file_paths)"
proof (cases "list_all (\<lambda>p. \<not> is_parsed (read_csv p)) file_paths")
  case True
  then have "fst (load_files read_csv file_paths ([], [])) = []"
    by (rule load_files_none_parsed)
  then have "load_and_combine_data upcast read_csv file_paths =
      (empty_df, snd (load_files read_csv file_paths ([], [])) @ [Error no_data_msg])"
    by (simp add: load_eq)
  then show ?thesis using True by simp
next
  case False
  then have "fst (load_files read_csv file_paths ([], [])) \<noteq> []"
    by (rule load_files_some_parsed)
  then have "snd (load_and_combine_data upcast read_csv file_paths) =
      snd (load_files read_csv file_paths ([], []))"
    by (simp add: load_eq)
  moreover have "Error no_data_msg \<notin> set (snd (load_files read_csv file_paths ([], [])))"
    by (rule load_files_no_data_msg) simp
  ultimately show ?thesis using False by simp
qed

theorem load_nothing_reported_witness:
  "list_all (\<lambda>p. \<not> is_parsed (read_from sample_files p)) [''missing.csv'', ''broken.csv''] \<and>
   load_and_combine_data as_read (read_from sample_files) [''missing.csv'', ''broken.csv''] =
     (empty_df, [not_found_msg ''missing.csv'',
                 load_error_msg ''broken.csv'' ''No columns to parse from file'',
                 Error no_data_msg]) \<and>
   load_and_combine_data as_read (read_from sample_files) [] = (empty_df, [Error no_data_msg]) \<and>
   Error no_data_msg \<notin>
     set (snd (load_and_combine_data as_read (read_from sample_files) [''endpoint.csv'', ''broken.csv'']))"
proof -
  have h: "list_all (\<lambda>p. \<not> is_parsed (read_from sample_files p)) [''missing.csv'', ''broken.csv'']"
    by (simp add: read_from_def sample_files_def)
  have run: "load_and_combine_data as_read (read_from sample_files) [''missing.csv'', ''broken.csv''] =
     (empty_df, [not_found_msg ''missing.csv'',
                 load_error_msg ''broken.csv'' ''No columns to parse from file'',
                 Error no_data_msg])"
    by (simp add: load_and_combine_data_def read_from_def sample_files_def)
  have none: "load_and_combine_data as_read (read_from sample_files) [] = (empty_df, [Error no_data_msg])"
    by (simp add: load_and_combine_data_def)
  have some: "\<not> list_all (\<lambda>p. \<not> is_parsed (read_from sample_files p)) [''endpoint.csv'', ''broken.csv'']"
    by (simp add: read_from_def sample_files_def)
  show ?thesis
    using h run none some
      load_nothing_reported [of "read_from sample_files" "[''missing.csv'', ''broken.csv'']" as_read]
      load_nothing_reported [of "read_from sample_files" "[''endpoint.csv'', ''broken.csv'']" as_read]
    by blast
qed

text \<open>
  C2, as the code has it. After loading, the table is, cell by cell, what the frames
  that were read hold: in the row of a frame, a column the frame does not have and a
  cell that is NaN give the empty string; a string gives that string; a scalar of
  another type gives that scalar, in the dtype the concatenation has given its column,
  and not its text. So no cell of the table is the missing marker, and the loader
  converts nothing to a string: a number that \<^verbatim>\<open>read_csv\<close> produced is still a number
  in the table (the conversion to text is done by the search, row by row).
\<close>

theorem load_fills_missing_only:
  assumes "dfs = frames_read read_csv file_paths"
  shows "rows (fst (load_and_combine_data upcast read_csv file_paths)) =
           concat (map (\<lambda>df. map (\<lambda>row. map (\<lambda>c.
                      case map_of (zip (columns df) row) c of
                        None \<Rightarrow> Str []
                      | Some NaN \<Rightarrow> Str []
                      | Some (Str s) \<Rightarrow> Str s
                      | Some (Val v) \<Rightarrow> Val (upcast dfs c v))
                    (union_columns dfs)) (rows df)) dfs) \<and>
         (\<forall>row \<in> set (rows (fst (load_and_combine_data upcast read_csv file_paths))).
            \<forall>c \<in> set row. c \<noteq> NaN)"
proof
  show "rows (fst (load_and_combine_data upcast read_csv file_paths)) =
           concat (map (\<lambda>df. map (\<lambda>row. map (\<lambda>c.
                      case map_of (zip (columns df) row) c of
                        None \<Rightarrow> Str []
                      | Some NaN \<Rightarrow> Str []
                      | Some (Str s) \<Rightarrow> Str s
                      | Some (Val v) \<Rightarrow> Val (upcast dfs c v))
                    (union_columns dfs)) (rows df)) dfs)"
    unfolding assms loaded_rows loaded_row ..
  show "\<forall>row \<in> set (rows (fst (load_and_combine_data upcast read_csv file_paths))).
            \<forall>c \<in> set row. c \<noteq> NaN"
  proof (intro ballI)
    fix row c
    assume "row \<in> set (rows (fst (load_and_combine_data upcast read_csv file_paths)))"
      and c: "c \<in> set row"
    then obtain cells where "row = map fill_cell cells"
      unfolding loaded_rows by auto
    then show "c \<noteq> NaN" using c by (auto simp: fill_cell_not_NaN)
  qed
qed

theorem load_fills_missing_only_witness:
  "[\<lparr>columns = [''name'', ''price''],
       rows = [[Str ''Endpoint Security'', Val 100], [Str ''Network Security'', Val 250]]\<rparr>,
    \<lparr>columns = [''sku'', ''name'', ''price''],
       rows = [[Str ''SKY-1'', Str ''Skyhigh SSE'', Val 300], [Str ''SKY-2'', NaN, Val 450]]\<rparr>] =
     frames_read (read_from sample_files) [''endpoint.csv'', ''skyhigh.csv'', ''broken.csv''] \<and>
   rows (fst (load_and_combine_data as_read (read_from sample_files)
                [''endpoint.csv'', ''skyhigh.csv'', ''broken.csv''])) =
     [[Str ''Endpoint Security'', Val 100, Str ''''],
      [Str ''Network Security'', Val 250, Str ''''],
      [Str ''Skyhigh SSE'', Val 300, Str ''SKY-1''],
      [Str '''', Val 450, Str ''SKY-2'']] \<and>
   list_all (list_all (\<lambda>c. c \<noteq> NaN))
     (rows (fst (load_and_combine_data as_read (read_from sample_files)
                   [''endpoint.csv'', ''skyhigh.csv'', ''broken.csv''])))"
proof -
  have h: "[\<lparr>columns = [''name'', ''price''],
       rows = [[Str ''Endpoint Security'', Val 100], [Str ''Network Security'', Val 250]]\<rparr>,
    \<lparr>columns = [''sku'', ''name'', ''price''],
       rows = [[Str ''SKY-1'', Str ''Skyhigh SSE'', Val 300], [Str ''SKY-2'', NaN, Val (450::int)]]\<rparr>] =
     frames_read (read_from sample_files) [''endpoint.csv'', ''skyhigh.csv'', ''broken.csv'']"
    by (simp add: frames_read_def read_from_def sample_files_def)
  have run: "rows (fst (load_and_combine_data as_read (read_from sample_files)
                [''endpoint.csv'', ''skyhigh.csv'', ''broken.csv''])) =
     [[Str ''Endpoint Security'', Val 100, Str ''''],
      [Str ''Network Security'', Val 250, Str ''''],
      [Str ''Skyhigh SSE'', Val 300, Str ''SKY-1''],
      [Str '''', Val 450, Str ''SKY-2'']]"
    by code_simp
  have "list_all (list_all (\<lambda>c. c \<noteq> NaN))
     (rows (fst (load_and_combine_data as_read (read_from sample_files)
                   [''endpoint.csv'', ''skyhigh.csv'', ''broken.csv''])))"
    using load_fills_missing_only [OF h, of as_read] by (simp add: list_all_iff)
  then show ?thesis using h run by simp
qed

theorem load_keeps_numbers_counterexample:
  "rows (fst (load_and_combine_data as_read (read_from sample_files) [''endpoint.csv''])) =
     [[Str ''Endpoint Security'', Val 100], [Str ''Network Security'', Val 250]] \<and>
   \<not> is_str (Val 100 :: int cell) \<and>
   \<not> list_all (list_all is_str)
       (rows (fst (load_and_combine_data as_read (read_from sample_files) [''endpoint.csv''])))"
  by code_simp

subsection \<open>The summarization step\<close>

text \<open>The \<^verbatim>\<open>try\<close> block fails exactly when one of its three steps does.\<close>

lemma try_gemini_fails:
  "try_gemini genai prompt = Inl e \<longleftrightarrow>
     GenerativeModel genai ''gemini-pro'' = Inl e \<or>
     (\<exists>model. GenerativeModel genai ''gemini-pro'' = Inr model \<and>
        (generate_content genai model prompt = Inl e \<or>
         (\<exists>response. generate_content genai model prompt = Inr response \<and>
            response_text genai response = Inl e)))"
  by (auto simp: try_gemini_def split: sum.splits)

text \<open>
  The frame handed to \<^verbatim>\<open>get_gemini_answer\<close> is a result of the search; one that has rows
  has the columns of the table.

  C4. \<^verbatim>\<open>get_gemini_answer\<close> creates the model, calls \<^verbatim>\<open>generate_content\<close> on the prompt
  and on nothing else, and answers with the text of the response. Of a frame with more
  than 10 rows, that prompt holds the rendering of the first 10 rows, followed by the
  note that tells how many more there are: the rows rendered and the number in the note
  add up to the rows of the frame. Of a frame with 1 to 10 rows the prompt holds the
  rendering of all rows and no note. For a frame without rows the prompt is the one that
  says nothing was found.
\<close>

theorem prompt_rows_capped:
  assumes "columns df \<noteq> []"
  shows "get_gemini_answer genai to_markdown query df =
           (case GenerativeModel genai ''gemini-pro'' of
              Inl e \<Rightarrow> (fallback_answer, [Error (''Error communicating with Gemini API: '' @ e)])
            | Inr model \<Rightarrow>
                (case generate_content genai model (build_prompt to_markdown query df) of
                   Inl e \<Rightarrow> (fallback_answer, [Error (''Error communicating with Gemini API: '' @ e)])
                 | Inr response \<Rightarrow>
                     (case response_text genai response of
                        Inl e \<Rightarrow> (fallback_answer, [Error (''Error communicating with Gemini API: '' @ e)])
                      | Inr text \<Rightarrow> (text, [])))) \<and>
         (len df > 10 \<longrightarrow>
            build_prompt to_markdown query df =
              prompt_intro query @ to_markdown (head 10 df)
                @ ([CHR 0x0A] @ ''... (and '' @ digits (len df - 10) @ '' more results not shown due to length)'')
                @ prompt_request \<and>
            rows (head 10 df) = take 10 (rows df) \<and> len (head 10 df) = 10 \<and>
            digits_value (digits (len df - 10)) + len (head 10 df) = len df) \<and>
         (0 < len df \<and> len df \<le> 10 \<longrightarrow>
            build_prompt to_markdown query df = prompt_intro query @ to_markdown df @ prompt_request) \<and>
         (len df = 0 \<longrightarrow> build_prompt to_markdown query df = no_match_prompt query)"
proof (intro conjI impI)
  show "get_gemini_answer genai to_markdown query df =
           (case GenerativeModel genai ''gemini-pro'' of
              Inl e \<Rightarrow> (fallback_answer, [Error (''Error communicating with Gemini API: '' @ e)])
            | Inr model \<Rightarrow>
                (case generate_content genai model (build_prompt to_markdown query df) of
                   Inl e \<Rightarrow> (fallback_answer, [Error (''Error communicating with Gemini API: '' @ e)])
                 | Inr response \<Rightarrow>
                     (case response_text genai response of
                        Inl e \<Rightarrow> (fallback_answer, [Error (''Error communicating with Gemini API: '' @ e)])
                      | Inr text \<Rightarrow> (text, []))))"
    by (simp add: get_gemini_answer_def try_gemini_def split: sum.splits)
next
  assume big: "10 < len df"
  then have ne: "\<not> df_is_empty df" using assms by (auto simp: df_is_empty_def len_def)
  have "int (len df) - int max_rows_for_gemini = int (len df - 10)"
    using big by (simp add: max_rows_for_gemini_def)
  then have indicator: "more_results_note (int (len df) - int max_rows_for_gemini) =
      [CHR 0x0A] @ ''... (and '' @ digits (len df - 10) @ '' more results not shown due to length)''"
    by (simp only: more_results_note_def str_int_nonneg of_nat_0_le_iff nat_int)
  have "results_str to_markdown df = to_markdown (head 10 df) @
      more_results_note (int (len df) - int max_rows_for_gemini)"
    using big by (simp add: results_str_def max_rows_for_gemini_def)
  then show "build_prompt to_markdown query df =
              prompt_intro query @ to_markdown (head 10 df)
                @ ([CHR 0x0A] @ ''... (and '' @ digits (len df - 10) @ '' more results not shown due to length)'')
                @ prompt_request"
    using ne by (simp only: build_prompt_def indicator if_False append_assoc)
  show "rows (head 10 df) = take 10 (rows df)" by (simp add: head_def)
  show l10: "len (head 10 df) = 10" using big by (simp add: head_def len_def)
  show "digits_value (digits (len df - 10)) + len (head 10 df) = len df"
    using big by (simp add: digits_value_digits l10)
next
  assume small: "0 < len df \<and> len df \<le> 10"
  then have ne: "\<not> df_is_empty df" using assms by (auto simp: df_is_empty_def len_def)
  have "results_str to_markdown df = to_markdown df"
    using small by (simp add: results_str_def max_rows_for_gemini_def)
  then show "build_prompt to_markdown query df = prompt_intro query @ to_markdown df @ prompt_request"
    using ne by (simp add: build_prompt_def)
next
  assume "len df = 0"
  then have "df_is_empty df" by (simp add: df_is_empty_def len_def)
  then show "build_prompt to_markdown query df = no_match_prompt query"
    by (simp add: build_prompt_def)
qed

lemma len_fifteen_rows: "len fifteen_rows = 15"
  by code_simp

lemma head_fifteen_rows: "rows (head 10 fifteen_rows) = map (\<lambda>i. [Str ''Item'', Val i]) [1..10]"
  by code_simp

text \<open>The client that answers with its prompt shows the prompt that was sent.\<close>

lemma echo_answer:
  "(case GenerativeModel echo ''gemini-pro'' of
      Inl e \<Rightarrow> (fallback_answer, [Error (''Error communicating with Gemini API: '' @ e)])
    | Inr model \<Rightarrow>
        (case generate_content echo model prompt of
           Inl e \<Rightarrow> (fallback_answer, [Error (''Error communicating with Gemini API: '' @ e)])
         | Inr response \<Rightarrow>
             (case response_text echo response of
                Inl e \<Rightarrow> (fallback_answer, [Error (''Error communicating with Gemini API: '' @ e)])
              | Inr text \<Rightarrow> (text, [])))) = (prompt, [])"
  by (simp add: echo_def)

theorem prompt_rows_capped_witness:
  "columns fifteen_rows \<noteq> [] \<and> len fifteen_rows = 15 \<and>
   get_gemini_answer echo render_rows ''item'' fifteen_rows =
     (prompt_intro ''item'' @ render_rows (head 10 fifteen_rows)
        @ ([CHR 0x0A] @ ''... (and 5 more results not shown due to length)'')
        @ prompt_request, []) \<and>
   len (head 10 fifteen_rows) = 10 \<and>
   rows (head 10 fifteen_rows) = map (\<lambda>i. [Str ''Item'', Val i]) [1..10]"
proof -
  have h: "columns fifteen_rows \<noteq> []" by (simp add: fifteen_rows_def)
  have d: "digits (15 - 10) = ''5''" by code_simp
  show ?thesis
    using h prompt_rows_capped [OF h, of echo render_rows "''item''"] len_fifteen_rows head_fifteen_rows d
    by (simp add: echo_answer)
qed

text \<open>
  C9. When the call of the model fails, at whichever of its steps and whatever the
  failure, \<^verbatim>\<open>get_gemini_answer\<close> returns the fixed apology, which depends neither on the
  failure nor on the query, and shows the failure as an error message; it raises
  nothing.
\<close>

theorem gemini_failure_fallback:
  assumes "GenerativeModel genai ''gemini-pro'' = Inl e \<or>
     (\<exists>model. GenerativeModel genai ''gemini-pro'' = Inr model \<and>
        (generate_content genai model (build_prompt to_markdown query df) = Inl e \<or>
         (\<exists>response. generate_content genai model (build_prompt to_markdown query df) = Inr response \<and>
            response_text genai response = Inl e)))"
  shows "get_gemini_answer genai to_markdown query df =
           (fallback_answer, [Error (''Error communicating with Gemini API: '' @ e)])"
proof -
  have "try_gemini genai (build_prompt to_markdown query df) = Inl e"
    using assms by (simp only: try_gemini_fails)
  then show ?thesis by (simp add: get_gemini_answer_def)
qed

theorem gemini_failure_fallback_witness:
  "GenerativeModel timing_out ''gemini-pro'' = Inr () \<and>
   generate_content timing_out () (build_prompt render_rows ''item'' fifteen_rows) =
     Inl ''504 Deadline Exceeded'' \<and>
   get_gemini_answer timing_out render_rows ''item'' fifteen_rows =
     (fallback_answer, [Error ''Error communicating with Gemini API: 504 Deadline Exceeded''])"
proof -
  have m: "GenerativeModel timing_out ''gemini-pro'' = Inr ()"
    by (simp add: timing_out_def)
  have g: "generate_content timing_out () (build_prompt render_rows ''item'' fifteen_rows) =
      Inl ''504 Deadline Exceeded''"
    by (simp add: timing_out_def)
  have h: "GenerativeModel timing_out ''gemini-pro'' = Inl ''504 Deadline Exceeded'' \<or>
     (\<exists>model. GenerativeModel timing_out ''gemini-pro'' = Inr model \<and>
        (generate_content timing_out model (build_prompt render_rows ''item'' fifteen_rows) =
           Inl ''504 Deadline Exceeded'' \<or>
         (\<exists>response. generate_content timing_out model (build_prompt render_rows ''item'' fifteen_rows) =
              Inr response \<and>
            response_text timing_out response = Inl ''504 Deadline Exceeded'')))"
    using m g by blast
  show ?thesis
    using m g gemini_failure_fallback [OF h] by simp
qed

end
